theory Spec2Isabelle
  imports Main
begin

section \<open>Python string primitives used by parse.py and patch.py\<close>

text \<open>
  A Python \<open>str\<close> is modelled as a \<open>string\<close>; a character is a code point below 256.
  On these code points \<open>str.isspace\<close>, \<open>str.strip\<close> and the regular expression class
  \<open>\s\<close> agree on the set 9-13, 28-32, 133, 160, and \<open>\d\<close> is 0-9.
\<close>

abbreviation NL :: char where "NL \<equiv> CHR 0x0A"
abbreviation SP :: char where "SP \<equiv> CHR 0x20"
abbreviation TAB :: char where "TAB \<equiv> CHR 0x09"

definition is_space :: "char \<Rightarrow> bool" where
  "is_space c = (let n = (of_char c :: nat) in
     (9 \<le> n \<and> n \<le> 13) \<or> (28 \<le> n \<and> n \<le> 32) \<or> n = 133 \<or> n = 160)"

definition is_digit :: "char \<Rightarrow> bool" where
  "is_digit c = (let n = (of_char c :: nat) in 48 \<le> n \<and> n \<le> 57)"

definition is_alnum_ascii :: "char \<Rightarrow> bool" where
  \<comment> \<open>the class \<open>[A-Za-z0-9]\<close>\<close>
  "is_alnum_ascii c = (let n = (of_char c :: nat) in
     (65 \<le> n \<and> n \<le> 90) \<or> (97 \<le> n \<and> n \<le> 122) \<or> (48 \<le> n \<and> n \<le> 57))"

definition lstrip :: "string \<Rightarrow> string" where
  "lstrip s = dropWhile is_space s"

definition rstrip :: "string \<Rightarrow> string" where
  "rstrip s = rev (dropWhile is_space (rev s))"

definition strip :: "string \<Rightarrow> string" where
  "strip s = lstrip (rstrip s)"

definition startswith :: "string \<Rightarrow> string \<Rightarrow> bool" where
  \<comment> \<open>\<open>s.startswith(p)\<close>\<close>
  "startswith s p = (take (length p) s = p)"

fun contains :: "string \<Rightarrow> string \<Rightarrow> bool" where
  \<comment> \<open>\<open>sub in s\<close>\<close>
  "contains sub [] = (sub = [])"
| "contains sub (c # cs) = (take (length sub) (c # cs) = sub \<or> contains sub cs)"

fun before_sep :: "string \<Rightarrow> string \<Rightarrow> string" where
  \<comment> \<open>\<open>s.split(sep)[0]\<close> for a non-empty separator\<close>
  "before_sep sep [] = []"
| "before_sep sep (c # cs) =
     (if take (length sep) (c # cs) = sep then [] else c # before_sep sep cs)"

definition replace_char :: "char \<Rightarrow> string \<Rightarrow> string" where
  \<comment> \<open>\<open>s.replace(c, '')\<close> for a single character \<open>c\<close>\<close>
  "replace_char c s = filter (\<lambda>x. x \<noteq> c) s"

datatype error = NoCodeError | NotPatchError | IndexError | TypeError

definition py_index :: "nat \<Rightarrow> int \<Rightarrow> nat option" where
  \<comment> \<open>the position a subscript \<open>i\<close> denotes in a list of \<open>n\<close> items; a negative
      subscript counts from the end\<close>
  "py_index n i =
     (if 0 \<le> i \<and> i < int n then Some (nat i)
      else if - int n \<le> i \<and> i < 0 then Some (nat (int n + i))
      else None)"

definition py_get :: "'a list \<Rightarrow> int \<Rightarrow> error + 'a" where
  \<comment> \<open>\<open>xs[i]\<close>\<close>
  "py_get xs i = (case py_index (length xs) i of None \<Rightarrow> Inl IndexError | Some j \<Rightarrow> Inr (xs ! j))"

definition py_set :: "'a list \<Rightarrow> int \<Rightarrow> 'a \<Rightarrow> error + 'a list" where
  \<comment> \<open>\<open>xs[i] = v\<close>\<close>
  "py_set xs i v =
     (case py_index (length xs) i of None \<Rightarrow> Inl IndexError | Some j \<Rightarrow> Inr (xs[j := v]))"

section \<open>parse.py\<close>

definition remove_whitespace :: "string \<Rightarrow> string" where
  "remove_whitespace line = replace_char SP (replace_char NL line)"

text \<open>All callers pass strings; \<open>not line\<close> is then the test for the empty string.\<close>

definition two_lines_match :: "string \<Rightarrow> string \<Rightarrow> bool" where
  "two_lines_match line1 line2 =
     (if line1 = [] \<or> line2 = [] then False
      else let s1 = strip line1; s2 = strip line2 in
        if s1 = [] \<or> s2 = [] then False
        else if startswith s1 ''//'' \<and> startswith s2 ''//'' then
          remove_whitespace s1 \<noteq> [] \<and> remove_whitespace s2 \<noteq> []
            \<and> remove_whitespace s1 = remove_whitespace s2
        else let l1 = remove_whitespace (before_sep ''//'' line1);
                 l2 = remove_whitespace (before_sep ''//'' line2)
             in l1 \<noteq> [] \<and> l2 \<noteq> [] \<and> l1 = l2)"

definition exist_line :: "string \<Rightarrow> string list option \<Rightarrow> bool" where
  "exist_line line mylst =
     (case mylst of None \<Rightarrow> True | Some ls \<Rightarrow> list_ex (\<lambda>l. two_lines_match l line) ls)"

definition is_valid_line :: "string \<Rightarrow> nat \<Rightarrow> bool" where
  "is_valid_line line len =
     (let nowh = remove_whitespace line in
      if length nowh \<le> len then False
      else let s = strip line in
        if s = [] then False
        else if hd s = CHR ''+'' then False
        else if contains ''missing'' line \<or> contains ''buggy'' line then False
        else True)"

definition incre :: "string \<Rightarrow> int" where
  "incre mode = (if mode = ''pre'' then - 1 else 1)"

function search_valid_loop ::
  "string list \<Rightarrow> string \<Rightarrow> int \<Rightarrow> int \<Rightarrow> string list option \<Rightarrow> (int \<times> string) option" where
  "search_valid_loop lines mode cur_idx degree existing =
     (if 0 \<le> cur_idx \<and> cur_idx < int (length lines) then
        (if is_valid_line (lines ! nat cur_idx) 0 \<and> exist_line (lines ! nat cur_idx) existing then
           (if degree - 1 = 0 then Some (cur_idx, lines ! nat cur_idx)
            else search_valid_loop lines mode (cur_idx + incre mode) (degree - 1) existing)
         else search_valid_loop lines mode (cur_idx + incre mode) degree existing)
      else None)"
  by pat_completeness auto
termination
  by (relation "measure (\<lambda>(lines, mode, cur, d, e).
        if mode = ''pre'' then nat (cur + 1) else nat (int (length lines) - cur))")
     (auto simp: incre_def)

declare search_valid_loop.simps [simp del]

definition search_valid_line ::
  "string list \<Rightarrow> int \<Rightarrow> string \<Rightarrow> int \<Rightarrow> string list option \<Rightarrow> (int \<times> string) option" where
  "search_valid_line lines start_idx mode degree existing =
     search_valid_loop lines mode (start_idx + incre mode) degree existing"

definition matching_with_comments :: "string \<Rightarrow> nat list \<Rightarrow> string list \<Rightarrow> nat list" where
  "matching_with_comments aim_line matched code_lines =
     filter (\<lambda>m. remove_whitespace aim_line = remove_whitespace (code_lines ! m)) matched"

fun matching_lines_loop :: "string \<Rightarrow> bool \<Rightarrow> (nat \<times> string) list \<Rightarrow> nat list \<Rightarrow> nat list" where
  "matching_lines_loop aim stop [] out = out"
| "matching_lines_loop aim stop ((idx, cl) # rest) out =
     (if two_lines_match aim cl then
        (if stop then [idx] else matching_lines_loop aim stop rest (out @ [idx]))
      else matching_lines_loop aim stop rest out)"

definition matching_lines :: "string option \<Rightarrow> string list \<Rightarrow> bool \<Rightarrow> nat list" where
  "matching_lines aim_line code_lines stop_at_first_match =
     (case aim_line of None \<Rightarrow> []
      | Some aim \<Rightarrow> matching_lines_loop aim stop_at_first_match (enumerate 0 code_lines) [])"

definition neighbor_filter ::
  "string list \<Rightarrow> string \<Rightarrow> int \<Rightarrow> string \<Rightarrow> nat list \<Rightarrow> nat list" where
  \<comment> \<open>the inner \<open>for mi in pre_now\<close> / \<open>for mi in post_now\<close> loop, appending to an empty list\<close>
  "neighbor_filter raw_codes mode degree aim_line now =
     filter (\<lambda>mi. case search_valid_line raw_codes (int mi) mode degree None of
                    None \<Rightarrow> False
                  | Some m \<Rightarrow> two_lines_match aim_line (snd m)) now"

fun matching_neighbor_loop ::
  "string list \<Rightarrow> int \<Rightarrow> string list \<Rightarrow> string list option \<Rightarrow> int list
     \<Rightarrow> nat list \<Rightarrow> nat list \<Rightarrow> nat list" where
  "matching_neighbor_loop aim_codes aim_idx raw_codes existing_pool [] pre_now post_now = []"
| "matching_neighbor_loop aim_codes aim_idx raw_codes existing_pool (degree # degrees) pre_now post_now =
     (let aim_pre = search_valid_line aim_codes aim_idx ''pre'' degree existing_pool;
          aim_post = search_valid_line aim_codes aim_idx ''post'' degree existing_pool;
          pre_also = (case aim_pre of None \<Rightarrow> []
                      | Some a \<Rightarrow> neighbor_filter raw_codes ''pre'' degree (snd a) pre_now)
      in if aim_pre \<noteq> None \<and> length pre_also = 1 then pre_also
         else let post_also = (case aim_post of None \<Rightarrow> []
                               | Some a \<Rightarrow> neighbor_filter raw_codes ''post'' degree (snd a) post_now)
           in if aim_post \<noteq> None \<and> length post_also = 1 then post_also
              else let inter = remdups (filter (\<lambda>m. m \<in> set post_also) pre_also)
                in if pre_also \<noteq> [] \<and> post_also \<noteq> [] \<and> length inter = 1 then inter
                   else if pre_also = [] \<and> post_also = [] then []
                   else matching_neighbor_loop aim_codes aim_idx raw_codes existing_pool
                          degrees pre_also post_also)"

definition matching_neighbor ::
  "string list \<Rightarrow> int \<Rightarrow> string list \<Rightarrow> nat list \<Rightarrow> bool \<Rightarrow> nat \<Rightarrow> nat list" where
  "matching_neighbor aim_codes aim_idx raw_codes matched existing degree_limit =
     (let existing_pool = (if existing then Some raw_codes else None)
      in matching_neighbor_loop aim_codes aim_idx raw_codes existing_pool
           (map int [1 ..< degree_limit + 1]) matched matched)"

definition unique_matching ::
  "string list \<Rightarrow> string list \<Rightarrow> int \<Rightarrow> string option \<Rightarrow> bool \<Rightarrow> error + int" where
  "unique_matching resp_lines code_lines resp_cur_idx resp_cur_line existing =
     (case (case resp_cur_line of None \<Rightarrow> py_get resp_lines resp_cur_idx | Some l \<Rightarrow> Inr l) of
        Inl e \<Rightarrow> Inl e
      | Inr target \<Rightarrow>
          let matched = matching_lines (Some target) code_lines False in
          if length matched = 1 then Inr (int (matched ! 0))
          else if length matched = 0 then Inr (- 2)
          else let neighbor = matching_neighbor resp_lines resp_cur_idx code_lines matched existing 5
               in if length neighbor = 1 then Inr (int (neighbor ! 0)) else Inr (- 1))"

section \<open>patch.py\<close>

subsection \<open>Regular expressions of patch.py\<close>

definition is_hunk_class :: "char \<Rightarrow> bool" where
  \<comment> \<open>the class \<open>[\s\d\+\-\,]\<close>\<close>
  "is_hunk_class c = (is_space c \<or> is_digit c \<or> c = CHR ''+'' \<or> c = CHR ''-'' \<or> c = CHR '','')"

definition hunk_split_match :: "string \<Rightarrow> (string \<times> string \<times> string) option" where
  \<comment> \<open>a match of \<open>(@@[\s\d\+\-\,]+@@)(\s+[^\n]+)\<close> at the start of \<open>s\<close>: group 1, group 2 and
      the text after the match. No character of the class is \<open>@\<close>, so the class run is
      maximal; \<open>\s+\<close> is greedy and gives characters back only when it reaches the end of
      the text.\<close>
  "hunk_split_match s =
     (if \<not> startswith s ''@@'' then None
      else let r = drop 2 s; run = takeWhile is_hunk_class r; r2 = dropWhile is_hunk_class r in
        if run = [] \<or> \<not> startswith r2 ''@@'' then None
        else let g1 = ''@@'' @ run @ ''@@''; r3 = drop 2 r2;
                 ws = takeWhile is_space r3; r4 = dropWhile is_space r3 in
          if ws = [] then None
          else if r4 \<noteq> [] then
            (let body = takeWhile (\<lambda>c. c \<noteq> NL) r4
             in Some (g1, ws @ body, drop (length body) r4))
          else (case find (\<lambda>j. ws ! j \<noteq> NL) (rev [1 ..< length ws]) of
                  None \<Rightarrow> None
                | Some j \<Rightarrow>
                    let body = takeWhile (\<lambda>c. c \<noteq> NL) (drop j ws)
                    in Some (g1, take j ws @ body, drop (j + length body) ws)))"

lemma hunk_split_match_shorter:
  "hunk_split_match s = Some (g1, g2, rest) \<Longrightarrow> length rest < length s"
proof -
  assume m: "hunk_split_match s = Some (g1, g2, rest)"
  then have st: "startswith s ''@@''"
    by (auto simp: hunk_split_match_def split: if_splits)
  then have len2: "2 \<le> length s"
    by (cases s; cases "tl s") (auto simp: startswith_def)
  define r r2 r3 where "r = drop 2 s" and "r2 = dropWhile is_hunk_class r" and "r3 = drop 2 r2"
  have l3: "length r3 \<le> length r"
    unfolding r3_def r2_def using length_dropWhile_le [of is_hunk_class r] by simp
  from len2 have lr': "length r < length s" unfolding r_def by auto
  have d: "length (dropWhile is_space r3) \<le> length r3"
    by (rule length_dropWhile_le)
  have t: "length (takeWhile is_space r3) \<le> length r3"
    by (rule length_takeWhile_le)
  have "length rest \<le> length r3"
    using m st d t
    unfolding hunk_split_match_def Let_def r_def [symmetric] r2_def [symmetric] r3_def [symmetric]
    by (auto split: if_splits option.splits)
  with l3 lr' show ?thesis by linarith
qed

function hunk_split_sub :: "string \<Rightarrow> string" where
  \<comment> \<open>\<open>re.sub\<close> with the replacement \<open>\1\n\2\<close>: leftmost matches, scanning on after each\<close>
  "hunk_split_sub s =
     (case hunk_split_match s of
        Some (g1, g2, rest) \<Rightarrow> g1 @ [NL] @ g2 @ hunk_split_sub rest
      | None \<Rightarrow> (case s of [] \<Rightarrow> [] | c # cs \<Rightarrow> c # hunk_split_sub cs))"
  by pat_completeness auto
termination
  by (relation "measure length") (auto simp: hunk_split_match_shorter)

declare hunk_split_sub.simps [simp del]

definition is_linebreak :: "char \<Rightarrow> bool" where
  \<comment> \<open>the line boundaries of \<open>str.splitlines\<close> below 256\<close>
  "is_linebreak c = (let n = (of_char c :: nat) in
     (10 \<le> n \<and> n \<le> 13) \<or> (28 \<le> n \<and> n \<le> 30) \<or> n = 133)"

fun splitlines_loop :: "string \<Rightarrow> string \<Rightarrow> string list" where
  "splitlines_loop cur [] = (if cur = [] then [] else [cur])"
| "splitlines_loop cur [c] = (if is_linebreak c then [cur] else [cur @ [c]])"
| "splitlines_loop cur (c # d # cs) =
     (if c = CHR 0x0D \<and> d = NL then cur # splitlines_loop [] cs
      else if is_linebreak c then cur # splitlines_loop [] (d # cs)
      else splitlines_loop (cur @ [c]) (d # cs))"

definition splitlines :: "string \<Rightarrow> string list" where
  "splitlines s = splitlines_loop [] s"

definition format_patch_lines :: "string \<Rightarrow> string list" where
  "format_patch_lines patch = splitlines (hunk_split_sub patch)"

definition lit :: "string \<Rightarrow> string \<Rightarrow> string option" where
  \<comment> \<open>a literal at the start of the text; the text after it\<close>
  "lit p s = (if startswith s p then Some (drop (length p) s) else None)"

definition space1 :: "string \<Rightarrow> string option" where
  \<comment> \<open>\<open>\s\<close>\<close>
  "space1 s = (case s of [] \<Rightarrow> None | c # cs \<Rightarrow> if is_space c then Some cs else None)"

definition digits1 :: "string \<Rightarrow> string option" where
  \<comment> \<open>\<open>\d+\<close>, always followed by a character that is no digit\<close>
  "digits1 s = (if takeWhile is_digit s = [] then None else Some (dropWhile is_digit s))"

fun seq_match :: "(string \<Rightarrow> string option) list \<Rightarrow> string \<Rightarrow> string option" where
  "seq_match [] s = Some s"
| "seq_match (p # ps) s = (case p s of None \<Rightarrow> None | Some r \<Rightarrow> seq_match ps r)"

definition hunk_header_match :: "string \<Rightarrow> bool" where
  \<comment> \<open>\<open>re.match(r'^@@\s-\d+,\d+\s\+\d+,\d+\s@@.*', s)\<close>\<close>
  "hunk_header_match s =
     (seq_match [lit ''@@'', space1, lit ''-'', digits1, lit '','', digits1, space1,
                 lit ''+'', digits1, lit '','', digits1, space1, lit ''@@''] s \<noteq> None)"

definition signed_match :: "string \<Rightarrow> string \<Rightarrow> bool" where
  \<comment> \<open>\<open>^[signs](\s|\t)+.*$\<close>: a sign, a non-empty whitespace run, then no newline other
      than a last one\<close>
  "signed_match signs s =
     (case s of [] \<Rightarrow> False
      | c # t \<Rightarrow> c \<in> set signs \<and> takeWhile is_space t \<noteq> []
                  \<and> NL \<notin> set (butlast (dropWhile is_space t)))"

definition ends_alnum :: "string \<Rightarrow> bool" where
  \<comment> \<open>\<open>re.search(r'[A-Za-z0-9]$', s)\<close>: \<open>$\<close> is the end, or before a last newline\<close>
  "ends_alnum s =
     (case rev s of [] \<Rightarrow> False
      | c # cs \<Rightarrow> is_alnum_ascii c \<or> (c = NL \<and> cs \<noteq> [] \<and> is_alnum_ascii (hd cs)))"

subsection \<open>Source pre-pass and patch validation\<close>

definition format_code_step :: "nat \<Rightarrow> string \<Rightarrow> string list \<Rightarrow> string list" where
  \<comment> \<open>one iteration of the loop of \<open>_format_code\<close>; \<open>line\<close> is from the snapshot
      \<open>list(out)\<close> taken before the loop, \<open>i\<close> is below the length of \<open>out\<close>\<close>
  "format_code_step i line out =
     (case find (\<lambda>k. replace_char SP line = k) [''public'', ''private'', ''protected''] of
        Some k \<Rightarrow>
          (let out1 = out[i := []] in
           if i + 1 < length out1 then out1[i + 1 := k @ '' '' @ lstrip (out1 ! (i + 1))] else out1)
      | None \<Rightarrow>
          if int i < int (length out) - 1 \<and> \<not> contains ''class'' line
             \<and> \<not> startswith (strip line) ''*''
             \<and> (\<not> contains ''//'' line \<and> \<not> contains ''/*'' line)
             \<and> ends_alnum line
          then (let out1 = out[i := rstrip line @ '' '' @ lstrip (out ! (i + 1))]
                in out1[i + 1 := []])
          else out)"

fun format_code_loop :: "(nat \<times> string) list \<Rightarrow> string list \<Rightarrow> string list" where
  "format_code_loop [] out = out"
| "format_code_loop ((i, line) # rest) out = format_code_loop rest (format_code_step i line out)"

definition format_code :: "string list \<Rightarrow> string list" where
  "format_code code_lines = format_code_loop (enumerate 0 code_lines) code_lines"

definition is_a_patch :: "string list \<Rightarrow> bool" where
  "is_a_patch patch_lines =
     (let has_hunk = list_ex (\<lambda>ln. hunk_header_match (strip ln)) patch_lines;
          has_sign = list_ex (\<lambda>ln. signed_match ''-+'' (strip ln)) patch_lines
      in has_hunk \<and> has_sign)"

definition find_a_matched_line ::
  "int \<Rightarrow> string \<Rightarrow> string list \<Rightarrow> string list \<Rightarrow> int \<Rightarrow> bool \<Rightarrow> error + int" where
  "find_a_matched_line pidx pline code_lines patch_lines lag existing =
     (let matched0 = matching_lines (Some pline) code_lines False;
          matched = (if lag \<ge> 0 then filter (\<lambda>m. int m > lag) matched0 else matched0)
      in if length matched = 1 then Inr (int (matched ! 0))
         else let perfect = matching_with_comments pline matched code_lines
              in if length perfect = 1 then Inr (int (perfect ! 0))
                 else unique_matching patch_lines code_lines pidx (Some pline) existing)"

subsection \<open>The pass over the patch\<close>

text \<open>
  A Patched Line Slot holds a \<open>str\<close> or a \<open>list\<close>; the list built by an insert-before
  takes the previous content of the slot as its last element, whatever that is.
\<close>

datatype slot = Str string | Lst "slot list"

record pstate =
  patched :: "slot list"
  unpatched :: "(nat \<times> string) list"
  to_patch :: nat
  replace_idx :: int
  prev_patch_idx :: int

definition slot_iadd :: "slot \<Rightarrow> string \<Rightarrow> slot" where
  \<comment> \<open>\<open>p += s\<close>: string concatenation, or \<open>list.extend\<close> with the characters of \<open>s\<close>\<close>
  "slot_iadd p s = (case p of Str t \<Rightarrow> Str (t @ s) | Lst xs \<Rightarrow> Lst (xs @ map (\<lambda>c. Str [c]) s))"

definition patch_removed ::
  "string list \<Rightarrow> string list \<Rightarrow> nat \<Rightarrow> string \<Rightarrow> pstate \<Rightarrow> error + pstate" where
  "patch_removed code_lines patch_lines pidx pline st0 =
     (let st = st0\<lparr>to_patch := to_patch st0 + 1\<rparr> in
      if prev_patch_idx st \<ge> 0 \<and> prev_patch_idx st + 1 = int pidx
         \<and> startswith (patch_lines ! nat (prev_patch_idx st)) ''-'' then
        (case (if replace_idx st + 1 < int (length (patched st))
               then py_set (patched st) (replace_idx st + 1) (Str [])
               else Inr (patched st)) of
           Inl e \<Rightarrow> Inl e
         | Inr p \<Rightarrow> Inr (st\<lparr>patched := p, replace_idx := replace_idx st + 1,
                             prev_patch_idx := int pidx\<rparr>))
      else
        (case find_a_matched_line (int pidx) (lstrip (drop 1 pline)) code_lines patch_lines
                (replace_idx st) True of
           Inl e \<Rightarrow> Inl e
         | Inr match_idx \<Rightarrow>
             if match_idx \<ge> 0 then
               (case py_set (patched st) match_idx (Str []) of
                  Inl e \<Rightarrow> Inl e
                | Inr p \<Rightarrow> Inr (st\<lparr>patched := p, replace_idx := match_idx,
                                    prev_patch_idx := int pidx\<rparr>))
             else Inr (st\<lparr>unpatched := unpatched st @ [(pidx, pline)]\<rparr>)))"

definition insert_after ::
  "string list \<Rightarrow> string list \<Rightarrow> nat \<Rightarrow> string \<Rightarrow> pstate \<Rightarrow> error + pstate option" where
  \<comment> \<open>the anchor before the added line; \<open>None\<close> when the code falls through to the anchor after\<close>
  "insert_after code_lines patch_lines pidx pline st =
     (case search_valid_line patch_lines (int pidx) ''pre'' 1 None of
        None \<Rightarrow> Inr None
      | Some pre_valid \<Rightarrow>
          (case find_a_matched_line (fst pre_valid) (snd pre_valid) code_lines patch_lines
                  (replace_idx st) False of
             Inl e \<Rightarrow> Inl e
           | Inr unique_idx \<Rightarrow>
               if unique_idx \<ge> 0 then
                 (case py_get (patched st) unique_idx of
                    Inl e \<Rightarrow> Inl e
                  | Inr old \<Rightarrow>
                      (case py_set (patched st) unique_idx
                              (slot_iadd old ([NL] @ rstrip (drop 1 pline))) of
                         Inl e \<Rightarrow> Inl e
                       | Inr p \<Rightarrow> Inr (Some (st\<lparr>patched := p, replace_idx := unique_idx,
                                                 prev_patch_idx := int pidx\<rparr>))))
               else Inr None))"

definition insert_before ::
  "string list \<Rightarrow> string list \<Rightarrow> nat \<Rightarrow> string \<Rightarrow> pstate \<Rightarrow> error + pstate option" where
  \<comment> \<open>the anchor after the added line, among the lines that exist in the code\<close>
  "insert_before code_lines patch_lines pidx pline st =
     (case search_valid_line patch_lines (int pidx) ''post'' 1 (Some code_lines) of
        None \<Rightarrow> Inr None
      | Some post_valid \<Rightarrow>
          (case find_a_matched_line (fst post_valid) (snd post_valid) code_lines patch_lines
                  (replace_idx st) False of
             Inl e \<Rightarrow> Inl e
           | Inr unique_idx \<Rightarrow>
               if unique_idx \<ge> 0 then
                 (case py_get (patched st) unique_idx of
                    Inl e \<Rightarrow> Inl e
                  | Inr old \<Rightarrow>
                      (case py_set (patched st) unique_idx
                              (Lst [Str (rstrip (drop 1 pline)), old]) of
                         Inl e \<Rightarrow> Inl e
                       | Inr p \<Rightarrow> Inr (Some (st\<lparr>patched := p, replace_idx := unique_idx,
                                                 prev_patch_idx := int pidx\<rparr>))))
               else Inr None))"

definition patch_added ::
  "string list \<Rightarrow> string list \<Rightarrow> nat \<Rightarrow> string \<Rightarrow> pstate \<Rightarrow> error + pstate" where
  "patch_added code_lines patch_lines pidx pline st0 =
     (let st = st0\<lparr>to_patch := to_patch st0 + 1\<rparr> in
      if prev_patch_idx st \<ge> 0 \<and> prev_patch_idx st + 1 = int pidx then
        (if startswith (patch_lines ! nat (prev_patch_idx st)) ''-'' then
           (case py_set (patched st) (replace_idx st) (Str (rstrip (drop 1 pline))) of
              Inl e \<Rightarrow> Inl e
            | Inr p \<Rightarrow> Inr (st\<lparr>patched := p, prev_patch_idx := int pidx\<rparr>))
         else if startswith (patch_lines ! nat (prev_patch_idx st)) ''+'' then
           (case py_get (patched st) (replace_idx st) of
              Inl e \<Rightarrow> Inl e
            | Inr (Str t) \<Rightarrow>
                (case py_set (patched st) (replace_idx st)
                        (Str (t @ [NL] @ rstrip (drop 1 pline))) of
                   Inl e \<Rightarrow> Inl e
                 | Inr p \<Rightarrow> Inr (st\<lparr>patched := p, prev_patch_idx := int pidx\<rparr>))
            | Inr (Lst xs) \<Rightarrow>
                (case py_get xs (- 1) of
                   Inl e \<Rightarrow> Inl e
                 | Inr l \<Rightarrow>
                     (case py_set (patched st) (replace_idx st)
                             (Lst (butlast xs @ [Str (rstrip (drop 1 pline)), l])) of
                        Inl e \<Rightarrow> Inl e
                      | Inr p \<Rightarrow> Inr (st\<lparr>patched := p, prev_patch_idx := int pidx\<rparr>))))
         else Inr (st\<lparr>prev_patch_idx := int pidx\<rparr>))
      else
        (case insert_after code_lines patch_lines pidx pline st of
           Inl e \<Rightarrow> Inl e
         | Inr (Some st') \<Rightarrow> Inr st'
         | Inr None \<Rightarrow>
             (case insert_before code_lines patch_lines pidx pline st of
                Inl e \<Rightarrow> Inl e
              | Inr (Some st') \<Rightarrow> Inr st'
              | Inr None \<Rightarrow> Inr (st\<lparr>unpatched := unpatched st @ [(pidx, pline)]\<rparr>))))"

definition patch_step ::
  "string list \<Rightarrow> string list \<Rightarrow> nat \<Rightarrow> string \<Rightarrow> pstate \<Rightarrow> error + pstate" where
  "patch_step code_lines patch_lines pidx pline st =
     (if signed_match ''-'' pline then patch_removed code_lines patch_lines pidx pline st
      else if signed_match ''+'' pline then patch_added code_lines patch_lines pidx pline st
      else Inr st)"

fun patch_loop ::
  "string list \<Rightarrow> string list \<Rightarrow> (nat \<times> string) list \<Rightarrow> pstate \<Rightarrow> error + pstate" where
  "patch_loop code_lines patch_lines [] st = Inr st"
| "patch_loop code_lines patch_lines ((pidx, pline) # rest) st =
     (case patch_step code_lines patch_lines pidx pline st of
        Inl e \<Rightarrow> Inl e
      | Inr st' \<Rightarrow> patch_loop code_lines patch_lines rest st')"

definition init_state :: "string list \<Rightarrow> pstate" where
  "init_state code_lines =
     \<lparr>patched = map Str code_lines, unpatched = [], to_patch = 0,
      replace_idx = - 1, prev_patch_idx = - 1\<rparr>"

definition slot_falsy :: "slot \<Rightarrow> bool" where
  \<comment> \<open>\<open>not p\<close>\<close>
  "slot_falsy p = (case p of Str s \<Rightarrow> s = [] | Lst xs \<Rightarrow> xs = [])"

fun collect :: "slot list \<Rightarrow> slot list" where
  \<comment> \<open>the list \<open>res\<close>: a string slot appended, the elements of a list slot by \<open>extend\<close>\<close>
  "collect [] = []"
| "collect (p # ps) =
     (if slot_falsy p then collect ps
      else (case p of Str s \<Rightarrow> [Str s] | Lst xs \<Rightarrow> xs) @ collect ps)"

fun join_lines :: "string list \<Rightarrow> string" where
  "join_lines [] = []"
| "join_lines [s] = s"
| "join_lines (s # t # ss) = s @ [NL] @ join_lines (t # ss)"

definition str_join :: "slot list \<Rightarrow> error + string" where
  \<comment> \<open>\<open>"\n".join(res)\<close>: a \<open>TypeError\<close> when an item is no string\<close>
  "str_join res =
     (if list_all (\<lambda>p. case p of Str s \<Rightarrow> True | Lst xs \<Rightarrow> False) res
      then Inr (join_lines (map (\<lambda>p. case p of Str s \<Rightarrow> s | Lst xs \<Rightarrow> []) res))
      else Inl TypeError)"

definition reconstruct :: "slot list \<Rightarrow> error + string" where
  "reconstruct ps = (case str_join (collect ps) of Inl e \<Rightarrow> Inl e | Inr s \<Rightarrow> Inr (strip s))"

definition run_patch :: "string list \<Rightarrow> string list \<Rightarrow> error + pstate" where
  \<comment> \<open>lines 92 to 150 of patch.py: the pre-pass and the pass over the patch\<close>
  "run_patch patch_lines raw_code_lines =
     (let code_lines = format_code raw_code_lines
      in patch_loop code_lines patch_lines (enumerate 0 patch_lines) (init_state code_lines))"

definition patching :: "string \<Rightarrow> string list \<Rightarrow> error + string" where
  "patching patch raw_code_lines =
     (let patch_lines = format_patch_lines patch in
      if \<not> is_a_patch patch_lines then Inl NoCodeError
      else (case run_patch patch_lines raw_code_lines of
              Inl e \<Rightarrow> Inl e
            | Inr st \<Rightarrow>
                if length (unpatched st) = to_patch st then Inl NotPatchError
                else reconstruct (patched st)))"

subsection \<open>The list objects of a call of \<open>patching\<close>\<close>

text \<open>
  Python lists are objects, and an assignment to \<open>xs[i]\<close> is seen through every
  reference to \<open>xs\<close>. To tell which object each write of \<open>_format_code\<close> and
  \<open>patching\<close> reaches, the list objects live in a heap, a reference is an address,
  \<open>list(xs)\<close> allocates a new object with the items of \<open>xs\<close>, and a subscript
  assignment updates the object at the address of the variable it names. Strings are
  immutable and stay values. The steps computed on the content are those of the
  functions above.
\<close>

datatype obj = Lines "string list" | Slots "slot list"

type_synonym heap = "obj list"

definition alloc :: "obj \<Rightarrow> heap \<Rightarrow> nat \<times> heap" where
  \<comment> \<open>a new list object, at an address no live reference holds\<close>
  "alloc v h = (length h, h @ [v])"

definition heap_lines :: "heap \<Rightarrow> nat \<Rightarrow> string list" where
  "heap_lines h a = (case h ! a of Lines ls \<Rightarrow> ls | Slots ps \<Rightarrow> [])"

definition heap_slots :: "heap \<Rightarrow> nat \<Rightarrow> slot list" where
  "heap_slots h a = (case h ! a of Lines ls \<Rightarrow> [] | Slots ps \<Rightarrow> ps)"

fun format_code_loop_h :: "nat \<Rightarrow> (nat \<times> string) list \<Rightarrow> heap \<Rightarrow> heap" where
  "format_code_loop_h out [] h = h"
| "format_code_loop_h out ((i, line) # rest) h =
     format_code_loop_h out rest (h[out := Lines (format_code_step i line (heap_lines h out))])"

definition format_code_h :: "nat \<Rightarrow> heap \<Rightarrow> nat \<times> heap" where
  \<comment> \<open>\<open>out = list(code_lines)\<close> is a new object; the loop runs over the snapshot
      \<open>list(out)\<close> and writes to \<open>out\<close>; the reference \<open>out\<close> is returned\<close>
  "format_code_h code_lines h =
     (let (out, h1) = alloc (Lines (heap_lines h code_lines)) h;
          snapshot = heap_lines h1 out
      in (out, format_code_loop_h out (enumerate 0 snapshot) h1))"

fun patch_loop_h ::
  "nat \<Rightarrow> nat \<Rightarrow> string list \<Rightarrow> (nat \<times> string) list \<Rightarrow> pstate \<Rightarrow> heap
     \<Rightarrow> (error + pstate) \<times> heap" where
  "patch_loop_h code_lines patched_ref patch_lines [] st h = (Inr st, h)"
| "patch_loop_h code_lines patched_ref patch_lines ((pidx, pline) # rest) st h =
     (case patch_step (heap_lines h code_lines) patch_lines pidx pline
             (st\<lparr>patched := heap_slots h patched_ref\<rparr>) of
        Inl e \<Rightarrow> (Inl e, h)
      | Inr st' \<Rightarrow>
          patch_loop_h code_lines patched_ref patch_lines rest st'
            (h[patched_ref := Slots (patched st')]))"

definition patching_h :: "string \<Rightarrow> nat \<Rightarrow> heap \<Rightarrow> (error + string) \<times> heap" where
  "patching_h patch raw_code_lines h =
     (let patch_lines = format_patch_lines patch in
      if \<not> is_a_patch patch_lines then (Inl NoCodeError, h)
      else let (code_lines, h1) = format_code_h raw_code_lines h;
               (patched_ref, h2) = alloc (Slots (map Str (heap_lines h1 code_lines))) h1;
               (r, h3) = patch_loop_h code_lines patched_ref patch_lines
                           (enumerate 0 patch_lines) (init_state (heap_lines h2 code_lines)) h2
           in (case r of
                 Inl e \<Rightarrow> (Inl e, h3)
               | Inr st \<Rightarrow>
                   if length (unpatched st) = to_patch st then (Inl NotPatchError, h3)
                   else (reconstruct (heap_slots h3 patched_ref), h3)))"

subsection \<open>State predicates used in the proofs\<close>

definition nothing_applied :: "pstate \<Rightarrow> bool" where
  \<comment> \<open>every signed entry seen so far is unpatched, over an empty source\<close>
  "nothing_applied st \<longleftrightarrow>
     patched st = [] \<and> length (unpatched st) = to_patch st \<and> prev_patch_idx st = - 1"


section \<open>Properties of parse.py\<close>

text \<open>
  What the Line Normalizer removes: the space character (U+0020) and the newline
  character (U+000A), and nothing else; the other characters keep their order.
\<close>

lemma remove_whitespace_filter:
  "SP \<notin> set (remove_whitespace line) \<and> NL \<notin> set (remove_whitespace line)
     \<and> remove_whitespace line = filter (\<lambda>c. c \<noteq> SP \<and> c \<noteq> NL) line"
  by (induction line) (auto simp: remove_whitespace_def replace_char_def)

text \<open>
  C9 fails on the code: a tab is whitespace, and the normalized form of a line indented
  by a tab still contains it. The line matcher, which ignores whitespace through
  \<open>remove_whitespace\<close>, therefore matches a line with the same line indented by
  spaces and not with the same line indented by a tab.
\<close>

theorem remove_whitespace_keeps_tab:
  "is_space TAB
   \<and> remove_whitespace (TAB # ''x = 1;'') = TAB # ''x=1;''
   \<and> TAB \<in> set (remove_whitespace (TAB # ''x = 1;''))
   \<and> two_lines_match (''    x = 1;'') ''x = 1;''
   \<and> \<not> two_lines_match (TAB # ''x = 1;'') ''x = 1;''"
  by code_simp

lemma matching_lines_loop_filter:
  "matching_lines_loop aim False ps out = out @ map fst (filter (\<lambda>p. two_lines_match aim (snd p)) ps)"
  by (induction ps arbitrary: out) auto

lemma matching_lines_enumerate:
  "matching_lines (Some aim) code_lines False =
     map fst (filter (\<lambda>p. two_lines_match aim (snd p)) (enumerate 0 code_lines))"
  by (simp add: matching_lines_def matching_lines_loop_filter)

lemma matching_lines_member:
  "i \<in> set (matching_lines (Some aim) code_lines False)
     \<longleftrightarrow> i < length code_lines \<and> two_lines_match aim (code_lines ! i)"
proof
  assume "i \<in> set (matching_lines (Some aim) code_lines False)"
  then show "i < length code_lines \<and> two_lines_match aim (code_lines ! i)"
    by (auto simp: matching_lines_enumerate in_set_enumerate_eq)
next
  assume "i < length code_lines \<and> two_lines_match aim (code_lines ! i)"
  then have "(i, code_lines ! i) \<in> set (filter (\<lambda>p. two_lines_match aim (snd p)) (enumerate 0 code_lines))"
    by (simp add: in_set_enumerate_eq)
  then have "fst (i, code_lines ! i) \<in> fst ` set (filter (\<lambda>p. two_lines_match aim (snd p)) (enumerate 0 code_lines))"
    by (rule imageI)
  then show "i \<in> set (matching_lines (Some aim) code_lines False)"
    by (simp add: matching_lines_enumerate)
qed

text \<open>
  C1: the contract of the Unique-Match Resolver. Whenever the target line is defined (the
  explicit line is given, or the fragment index denotes a fragment line),
  \<open>unique_matching\<close> returns the single candidate when \<open>matching_lines\<close> yields exactly
  one, the sentinel \<open>-2\<close> when it yields none, and otherwise the index found by
  \<open>matching_neighbor\<close> when that is exactly one index, else the sentinel \<open>-1\<close>.
\<close>

theorem unique_matching_contract:
  assumes "(case resp_cur_line of None \<Rightarrow> py_get resp_lines resp_cur_idx | Some l \<Rightarrow> Inr l) = Inr target"
  shows "unique_matching resp_lines code_lines resp_cur_idx resp_cur_line existing =
     (let candidates = matching_lines (Some target) code_lines False;
          neighbor = matching_neighbor resp_lines resp_cur_idx code_lines candidates existing 5
      in if length candidates = 1 then Inr (int (candidates ! 0))
         else if length candidates = 0 then Inr (- 2)
         else if length neighbor = 1 then Inr (int (neighbor ! 0))
         else Inr (- 1))"
  using assms by (simp add: unique_matching_def Let_def)

text \<open>
  The contract at four inputs, one for each outcome: a single candidate, no candidate,
  two candidates told apart by the line before, and two candidates with no neighbor.
\<close>

theorem unique_matching_contract_witness:
  "unique_matching [''return x;''] [''int x;'', ''return x;''] 0 None False = Inr 1
   \<and> unique_matching [''return y;''] [''int x;'', ''return x;''] 0 None False = Inr (- 2)
   \<and> unique_matching [''a;'', ''}'', ''b;''] [''a;'', ''}'', ''b;'', ''}''] 1 None False = Inr 1
   \<and> unique_matching [''}''] [''a;'', ''}'', ''b;'', ''}''] 0 None False = Inr (- 1)"
proof -
  have t1: "(case None of None \<Rightarrow> py_get [''return x;''] 0 | Some l \<Rightarrow> Inr l) = Inr ''return x;''"
    by (simp add: py_get_def py_index_def)
  have t2: "(case None of None \<Rightarrow> py_get [''return y;''] 0 | Some l \<Rightarrow> Inr l) = Inr ''return y;''"
    by (simp add: py_get_def py_index_def)
  have t3: "(case None of None \<Rightarrow> py_get [''a;'', ''}'', ''b;''] 1 | Some l \<Rightarrow> Inr l) = Inr ''}''"
    by (simp add: py_get_def py_index_def)
  have t4: "(case None of None \<Rightarrow> py_get [''}''] 0 | Some l \<Rightarrow> Inr l) = Inr ''}''"
    by (simp add: py_get_def py_index_def)
  have c1: "matching_lines (Some ''return x;'') [''int x;'', ''return x;''] False = [1]"
    by code_simp
  have c2: "matching_lines (Some ''return y;'') [''int x;'', ''return x;''] False = []"
    by code_simp
  have c3: "matching_lines (Some ''}'') [''a;'', ''}'', ''b;'', ''}''] False = [1, 3]"
    by code_simp
  have n3: "matching_neighbor [''a;'', ''}'', ''b;''] 1 [''a;'', ''}'', ''b;'', ''}''] [Suc 0, 3] False 5 = [Suc 0]"
    by code_simp
  have n4: "matching_neighbor [''}''] 0 [''a;'', ''}'', ''b;'', ''}''] [Suc 0, 3] False 5 = []"
    by code_simp
  show ?thesis
    using unique_matching_contract [OF t1, of "[''int x;'', ''return x;'']" False]
      unique_matching_contract [OF t2, of "[''int x;'', ''return x;'']" False]
      unique_matching_contract [OF t3, of "[''a;'', ''}'', ''b;'', ''}'']" False]
      unique_matching_contract [OF t4, of "[''a;'', ''}'', ''b;'', ''}'']" False]
    by (simp add: c1 c2 c3 n3 n4)
qed

lemma dup_candidates:
  "matching_lines (Some ''dup'') [''x'', ''dup'', ''y'', ''dup'', ''z''] False = [Suc 0, 3]"
  by code_simp

lemma dup_pre_filter:
  "neighbor_filter [''x'', ''dup'', ''y'', ''dup'', ''z''] ''pre'' 1 ''y'' [Suc 0, 3] = [3]"
  by code_simp

lemma degrees_5: "map int [Suc 0 ..< 6] = [1, 2, 3, 4, 5]"
  by code_simp

text \<open>
  C7: ambiguity resolution by neighbors. In the source \<open>x, dup, y, dup, z\<close>, a fragment
  line \<open>dup\<close> whose valid neighbor before is \<open>y\<close> and whose valid neighbor after is \<open>z\<close>
  resolves to index 3, the second \<open>dup\<close>, whatever the rest of the fragment is and with
  or without the filter on existing lines.
\<close>

theorem neighbors_resolve_second_dup:
  assumes "py_get fragment idx = Inr ''dup''"
    and "search_valid_line fragment idx ''pre'' 1
           (if existing then Some [''x'', ''dup'', ''y'', ''dup'', ''z''] else None) = Some (i, ''y'')"
    and "search_valid_line fragment idx ''post'' 1
           (if existing then Some [''x'', ''dup'', ''y'', ''dup'', ''z''] else None) = Some (j, ''z'')"
  shows "unique_matching fragment [''x'', ''dup'', ''y'', ''dup'', ''z''] idx None existing = Inr 3"
proof -
  have "matching_neighbor fragment idx [''x'', ''dup'', ''y'', ''dup'', ''z''] [Suc 0, 3] existing 5 = [3]"
    using assms(2) by (cases existing) (simp_all add: matching_neighbor_def degrees_5 dup_pre_filter)
  then show ?thesis
    using assms(1) by (simp add: unique_matching_def dup_candidates)
qed

text \<open>The fragment \<open>y, dup, z\<close> at index 1 is such a fragment line.\<close>

theorem neighbors_resolve_second_dup_witness:
  "py_get [''y'', ''dup'', ''z''] 1 = Inr ''dup''
   \<and> search_valid_line [''y'', ''dup'', ''z''] 1 ''pre'' 1 None = Some (0, ''y'')
   \<and> search_valid_line [''y'', ''dup'', ''z''] 1 ''post'' 1 None = Some (2, ''z'')
   \<and> unique_matching [''y'', ''dup'', ''z''] [''x'', ''dup'', ''y'', ''dup'', ''z''] 1 None False = Inr 3"
proof -
  have a: "py_get [''y'', ''dup'', ''z''] 1 = Inr ''dup''"
    by (simp add: py_get_def py_index_def)
  have b: "search_valid_line [''y'', ''dup'', ''z''] 1 ''pre'' 1
             (if False then Some [''x'', ''dup'', ''y'', ''dup'', ''z''] else None) = Some (0, ''y'')"
    by code_simp
  have c: "search_valid_line [''y'', ''dup'', ''z''] 1 ''post'' 1
             (if False then Some [''x'', ''dup'', ''y'', ''dup'', ''z''] else None) = Some (2, ''z'')"
    by code_simp
  from neighbors_resolve_second_dup [OF a b c] a b c show ?thesis by simp
qed

section \<open>Properties of patch.py\<close>

lemma is_a_patch_iff:
  "is_a_patch patch_lines \<longleftrightarrow>
     list_ex (\<lambda>ln. hunk_header_match (strip ln)) patch_lines
     \<and> list_ex (\<lambda>ln. signed_match ''-+'' (strip ln)) patch_lines"
  by (simp add: is_a_patch_def)

lemma patch_loop_context_only:
  "list_all (\<lambda>p. \<not> signed_match ''-'' (snd p) \<and> \<not> signed_match ''+'' (snd p)) ps
     \<Longrightarrow> patch_loop code_lines patch_lines ps st = Inr st"
  by (induction ps) (auto simp: patch_step_def)

lemma list_all_snd_enumerate:
  "list_all (\<lambda>p. P (snd p)) (enumerate n xs) = list_all P xs"
  by (induction xs arbitrary: n) auto

lemma context_only_result:
  assumes "list_all (\<lambda>l. \<not> signed_match ''-'' l \<and> \<not> signed_match ''+'' l) patch_lines"
  shows "run_patch patch_lines raw_code_lines = Inr (init_state (format_code raw_code_lines))"
  using assms
    list_all_snd_enumerate [of "\<lambda>l. \<not> signed_match ''-'' l \<and> \<not> signed_match ''+'' l" 0 patch_lines]
  by (simp add: run_patch_def patch_loop_context_only)

text \<open>
  C2 (as the code has it): Malformed Patch. The lines of a patch are the lines
  \<open>_format_patch_lines\<close> yields. When none of them, stripped of surrounding whitespace,
  matches the hunk-header pattern, or none of them, stripped, matches a signed content line,
  \<open>patching\<close> raises \<open>NoCodeError\<close>, whatever the source is and before the source
  is looked at. A patch of context lines only, one in which no line itself starts with a
  sign followed by whitespace, never returns a text: it raises \<open>NoCodeError\<close>, or,
  when it is structurally valid because a context line looks like a signed line once
  stripped, \<open>NotPatchError\<close>.
\<close>

theorem context_only_patch_raises:
  "(\<not> list_ex (\<lambda>ln. hunk_header_match (strip ln)) (format_patch_lines patch)
      \<or> \<not> list_ex (\<lambda>ln. signed_match ''-+'' (strip ln)) (format_patch_lines patch)
    \<longrightarrow> patching patch raw_code_lines = Inl NoCodeError)
   \<and> (list_all (\<lambda>l. \<not> signed_match ''-'' l \<and> \<not> signed_match ''+'' l) (format_patch_lines patch)
    \<longrightarrow> patching patch raw_code_lines =
          (if is_a_patch (format_patch_lines patch) then Inl NotPatchError else Inl NoCodeError))"
proof (intro conjI impI)
  assume "\<not> list_ex (\<lambda>ln. hunk_header_match (strip ln)) (format_patch_lines patch)
      \<or> \<not> list_ex (\<lambda>ln. signed_match ''-+'' (strip ln)) (format_patch_lines patch)"
  then show "patching patch raw_code_lines = Inl NoCodeError"
    by (auto simp: patching_def is_a_patch_iff)
next
  assume "list_all (\<lambda>l. \<not> signed_match ''-'' l \<and> \<not> signed_match ''+'' l) (format_patch_lines patch)"
  from context_only_result [OF this, of raw_code_lines]
  show "patching patch raw_code_lines =
          (if is_a_patch (format_patch_lines patch) then Inl NotPatchError else Inl NoCodeError)"
    by (simp add: patching_def init_state_def)
qed

text \<open>
  A patch with a hunk header and two plain context lines raises Malformed Patch; a patch
  whose context line is a wrapped expression starting with an indented \<open>+\<close> raises
  No-Op Patch.
\<close>

theorem context_only_patch_raises_witness:
  "\<not> list_ex (\<lambda>ln. signed_match ''-+'' (strip ln))
       (format_patch_lines (''@@ -1,2 +1,2 @@'' @ [NL] @ '' a;'' @ [NL] @ '' b;''))
   \<and> list_all (\<lambda>l. \<not> signed_match ''-'' l \<and> \<not> signed_match ''+'' l)
       (format_patch_lines (''@@ -1,2 +1,2 @@'' @ [NL] @ '' a;'' @ [NL] @ '' b;''))
   \<and> patching (''@@ -1,2 +1,2 @@'' @ [NL] @ '' a;'' @ [NL] @ '' b;'') [''a;'', ''b;'']
       = Inl NoCodeError
   \<and> list_all (\<lambda>l. \<not> signed_match ''-'' l \<and> \<not> signed_match ''+'' l)
       (format_patch_lines (''@@ -1,2 +1,2 @@'' @ [NL] @ '' x = a'' @ [NL] @ ''     + y;''))
   \<and> is_a_patch (format_patch_lines (''@@ -1,2 +1,2 @@'' @ [NL] @ '' x = a'' @ [NL] @ ''     + y;''))
   \<and> patching (''@@ -1,2 +1,2 @@'' @ [NL] @ '' x = a'' @ [NL] @ ''     + y;'')
        [''x = a'', ''    + y;''] = Inl NotPatchError"
proof -
  have s: "\<not> list_ex (\<lambda>ln. signed_match ''-+'' (strip ln))
       (format_patch_lines (''@@ -1,2 +1,2 @@'' @ [NL] @ '' a;'' @ [NL] @ '' b;''))"
    by code_simp
  then have d: "\<not> list_ex (\<lambda>ln. hunk_header_match (strip ln))
          (format_patch_lines (''@@ -1,2 +1,2 @@'' @ [NL] @ '' a;'' @ [NL] @ '' b;''))
      \<or> \<not> list_ex (\<lambda>ln. signed_match ''-+'' (strip ln))
          (format_patch_lines (''@@ -1,2 +1,2 @@'' @ [NL] @ '' a;'' @ [NL] @ '' b;''))"
    by (rule disjI2)
  have c1: "list_all (\<lambda>l. \<not> signed_match ''-'' l \<and> \<not> signed_match ''+'' l)
       (format_patch_lines (''@@ -1,2 +1,2 @@'' @ [NL] @ '' a;'' @ [NL] @ '' b;''))"
    by code_simp
  have c2: "list_all (\<lambda>l. \<not> signed_match ''-'' l \<and> \<not> signed_match ''+'' l)
       (format_patch_lines (''@@ -1,2 +1,2 @@'' @ [NL] @ '' x = a'' @ [NL] @ ''     + y;''))"
    by code_simp
  have p2: "is_a_patch (format_patch_lines (''@@ -1,2 +1,2 @@'' @ [NL] @ '' x = a'' @ [NL] @ ''     + y;''))"
    by code_simp
  from context_only_patch_raises
    [of "''@@ -1,2 +1,2 @@'' @ [NL] @ '' a;'' @ [NL] @ '' b;''" "[''a;'', ''b;'']"] d
  have r1: "patching (''@@ -1,2 +1,2 @@'' @ [NL] @ '' a;'' @ [NL] @ '' b;'') [''a;'', ''b;'']
       = Inl NoCodeError"
    by blast
  from context_only_patch_raises
    [of "''@@ -1,2 +1,2 @@'' @ [NL] @ '' x = a'' @ [NL] @ ''     + y;''" "[''x = a'', ''    + y;'']"]
    c2 p2
  have r2: "patching (''@@ -1,2 +1,2 @@'' @ [NL] @ '' x = a'' @ [NL] @ ''     + y;'')
        [''x = a'', ''    + y;''] = Inl NotPatchError"
    by simp
  from s c1 r1 c2 p2 r2 show ?thesis by (intro conjI)
qed

text \<open>
  C2 as stated fails: the patch below has a hunk header and one context line, whose
  content is \<open>- a;\<close>; it has no signed line, yet \<open>patching\<close> raises
  \<open>NotPatchError\<close> (No-Op Patch) and not \<open>NoCodeError\<close> (Malformed Patch): the
  validation strips a line before it tests for a sign, the pass does not.
\<close>

theorem context_only_patch_no_op:
  "format_patch_lines (''@@ -1,2 +1,2 @@'' @ [NL] @ '' - a;'')
     = [''@@ -1,2 +1,2 @@'', [], '' - a;'']
   \<and> \<not> signed_match ''-'' '' - a;'' \<and> \<not> signed_match ''+'' '' - a;''
   \<and> patching (''@@ -1,2 +1,2 @@'' @ [NL] @ '' - a;'') [''a;''] = Inl NotPatchError
   \<and> patching (''@@ -1,2 +1,2 @@'' @ [NL] @ '' - a;'') [''a;''] \<noteq> Inl NoCodeError"
  by code_simp

lemma reconstruct_not_no_op: "reconstruct ps \<noteq> Inl NotPatchError"
  by (auto simp: reconstruct_def str_join_def split: sum.splits if_splits)

lemma no_op_iff_nothing_applied:
  assumes "is_a_patch (format_patch_lines patch)"
    and "run_patch (format_patch_lines patch) raw_code_lines = Inr st"
  shows "patching patch raw_code_lines = Inl NotPatchError
           \<longleftrightarrow> length (unpatched st) = to_patch st"
  using assms by (simp add: patching_def reconstruct_not_no_op)

text \<open>
  C3 fails on the code. Two hunks each insert a line before the same source line
  \<open>a;\<close>: the patch is structurally valid, both signed entries are applied and none
  is unpatched, yet no text is returned: the second insertion nests the list slot of
  the first, and joining the lines raises \<open>TypeError\<close>.
\<close>

theorem applied_entries_yet_no_text:
  "is_a_patch (format_patch_lines
      (''@@ -1,1 +1,2 @@'' @ [NL] @ ''+ x;'' @ [NL] @ '' a;'' @ [NL]
        @ ''@@ -1,1 +1,2 @@'' @ [NL] @ ''+ y;'' @ [NL] @ '' a;''))
   \<and> run_patch (format_patch_lines
      (''@@ -1,1 +1,2 @@'' @ [NL] @ ''+ x;'' @ [NL] @ '' a;'' @ [NL]
        @ ''@@ -1,1 +1,2 @@'' @ [NL] @ ''+ y;'' @ [NL] @ '' a;'')) [''a;'']
     = Inr \<lparr>patched = [Lst [Str '' y;'', Lst [Str '' x;'', Str ''a;'']]],
            unpatched = [], to_patch = 2, replace_idx = 0, prev_patch_idx = 6\<rparr>
   \<and> patching
      (''@@ -1,1 +1,2 @@'' @ [NL] @ ''+ x;'' @ [NL] @ '' a;'' @ [NL]
        @ ''@@ -1,1 +1,2 @@'' @ [NL] @ ''+ y;'' @ [NL] @ '' a;'') [''a;'']
     = Inl TypeError"
  by code_simp

text \<open>
  C4 fails on the code. The source is \<open>a;\<close>, \<open>b;\<close>. The patch removes \<open>b;\<close>, the
  last line, then a second line in the same run, which moves \<open>replace_idx\<close> to 2, past
  the last slot; the added line that follows writes to that slot and raises
  \<open>IndexError\<close>, which is neither a text nor one of the two defined failures.
\<close>

theorem removal_run_past_end_index_error:
  "is_a_patch (format_patch_lines
      (''@@ -1,2 +1,1 @@'' @ [NL] @ ''- b;'' @ [NL] @ ''- x;'' @ [NL] @ ''+ y;''))
   \<and> patching (''@@ -1,2 +1,1 @@'' @ [NL] @ ''- b;'' @ [NL] @ ''- x;'' @ [NL] @ ''+ y;'')
        [''a;'', ''b;''] = Inl IndexError"
  by code_simp

lemma format_code_empty: "format_code [] = []"
  by (simp add: format_code_def)

lemma matching_lines_empty: "matching_lines aim [] stop = []"
  by (simp add: matching_lines_def split: option.splits)

lemma find_a_matched_line_empty:
  "find_a_matched_line pidx pline [] patch_lines lag existing = Inr (- 2)"
  by (simp add: find_a_matched_line_def unique_matching_def matching_lines_empty
      matching_with_comments_def)

lemma search_valid_loop_none_exist:
  "existing = Some [] \<Longrightarrow> search_valid_loop lines mode cur_idx degree existing = None"
proof (induction lines mode cur_idx degree existing rule: search_valid_loop.induct)
  case (1 lines mode cur_idx degree existing)
  then show ?case
    by (subst search_valid_loop.simps) (simp add: exist_line_def)
qed

lemma search_valid_line_none_exist:
  "search_valid_line lines start mode degree (Some []) = None"
  by (simp add: search_valid_line_def search_valid_loop_none_exist)

lemma patch_step_empty_source:
  assumes "nothing_applied st"
  shows "\<exists>st'. patch_step [] patch_lines pidx pline st = Inr st' \<and> nothing_applied st'"
proof -
  have r: "\<exists>st'. patch_removed [] patch_lines pidx pline st = Inr st' \<and> nothing_applied st'"
    using assms
    by (simp add: patch_removed_def nothing_applied_def find_a_matched_line_empty)
  have ia: "insert_after [] patch_lines pidx pline s = Inr None" for s
    by (simp add: insert_after_def find_a_matched_line_empty split: option.splits)
  have ib: "insert_before [] patch_lines pidx pline s = Inr None" for s
    by (simp add: insert_before_def search_valid_line_none_exist)
  have a: "\<exists>st'. patch_added [] patch_lines pidx pline st = Inr st' \<and> nothing_applied st'"
    using assms
    by (simp add: patch_added_def nothing_applied_def ia ib)
  from r a assms show ?thesis
    by (simp add: patch_step_def)
qed

lemma patch_loop_empty_source:
  "nothing_applied st \<Longrightarrow>
     \<exists>st'. patch_loop [] patch_lines ps st = Inr st' \<and> nothing_applied st'"
proof (induction ps arbitrary: st)
  case Nil
  then show ?case by simp
next
  case (Cons p ps)
  obtain pidx pline where p: "p = (pidx, pline)" by (cases p)
  from patch_step_empty_source [OF Cons.prems, of patch_lines pidx pline]
  obtain st1 where s: "patch_step [] patch_lines pidx pline st = Inr st1" and n: "nothing_applied st1"
    by blast
  from Cons.IH [OF n] s p show ?case by simp
qed

text \<open>
  C10: with an empty source-line list \<open>patching\<close> never returns a text. It raises
  \<open>NoCodeError\<close> (Malformed Patch) when the text is not a patch; otherwise no signed
  entry resolves, the unpatched count equals the signed-entry count, and it raises
  \<open>NotPatchError\<close> (No-Op Patch).
\<close>

theorem empty_source_always_raises:
  "patching patch [] = Inl NoCodeError \<or> patching patch [] = Inl NotPatchError"
proof (cases "is_a_patch (format_patch_lines patch)")
  case False
  then show ?thesis by (simp add: patching_def)
next
  case True
  have "nothing_applied (init_state [])"
    by (simp add: nothing_applied_def init_state_def)
  from patch_loop_empty_source [OF this]
  obtain st' where "run_patch (format_patch_lines patch) [] = Inr st'" and "nothing_applied st'"
    unfolding run_patch_def format_code_empty Let_def by blast
  then show ?thesis
    using True by (simp add: patching_def nothing_applied_def)
qed














lemma patch_loop_append:
  "patch_loop code_lines patch_lines (xs @ ys) st =
     (case patch_loop code_lines patch_lines xs st of
        Inl e \<Rightarrow> Inl e
      | Inr st' \<Rightarrow> patch_loop code_lines patch_lines ys st')"
  by (induction xs arbitrary: st) (auto split: sum.splits)

lemma abc_format_code: "format_code [''a;'', ''b;'', ''c;''] = [''a;'', ''b;'', ''c;'']"
  by code_simp

lemma abc_removed_line:
  "signed_match ''-'' ''- b;'' \<and> lstrip (drop 1 ''- b;'') = ''b;''"
  by code_simp

lemma abc_candidates:
  "matching_lines (Some ''b;'') [''a;'', ''b;'', ''c;''] False = [Suc 0]"
  by code_simp

lemma abc_find:
  "find_a_matched_line pidx ''b;'' [''a;'', ''b;'', ''c;''] patch_lines (- 1) existing = Inr 1"
  by (simp add: find_a_matched_line_def abc_candidates)

lemma abc_step:
  "patch_step [''a;'', ''b;'', ''c;''] patch_lines k ''- b;'' (init_state [''a;'', ''b;'', ''c;''])
     = Inr \<lparr>patched = [Str ''a;'', Str [], Str ''c;''], unpatched = [], to_patch = 1,
            replace_idx = 1, prev_patch_idx = int k\<rparr>"
  using abc_removed_line
  by (simp add: patch_step_def patch_removed_def init_state_def abc_find py_set_def py_index_def)

lemma abc_reconstruct:
  "reconstruct [Str ''a;'', Str [], Str ''c;''] = Inr (''a;'' @ [NL] @ ''c;'')"
  by code_simp

text \<open>
  C6 (as the code has it): deletion correctness. For the source lines \<open>a;\<close>, \<open>b;\<close>,
  \<open>c;\<close>, which the pre-pass leaves as they are, and every structurally valid patch
  whose only signed entry is the removed line \<open>- b;\<close>, \<open>patching\<close> returns exactly the
  text of \<open>a;\<close> and \<open>c;\<close> joined by a newline.
\<close>

theorem deletion_of_unique_line:
  assumes "format_patch_lines patch = pre @ [''- b;''] @ post"
    and "list_all (\<lambda>l. \<not> signed_match ''-'' l \<and> \<not> signed_match ''+'' l) (pre @ post)"
    and "is_a_patch (format_patch_lines patch)"
  shows "patching patch [''a;'', ''b;'', ''c;''] = Inr (''a;'' @ [NL] @ ''c;'')"
proof -
  let ?code = "[''a;'', ''b;'', ''c;'']"
  let ?pl = "pre @ [''- b;''] @ post"
  let ?unsigned = "\<lambda>p. \<not> signed_match ''-'' (snd p) \<and> \<not> signed_match ''+'' (snd p)"
  have en: "enumerate 0 ?pl
            = enumerate 0 pre @ [(length pre, ''- b;'')] @ enumerate (Suc (length pre)) post"
    by (simp add: enumerate_append_eq)
  from assms(2) have "list_all ?unsigned (enumerate 0 pre)"
    and "list_all ?unsigned (enumerate (Suc (length pre)) post)"
    using list_all_snd_enumerate [of "\<lambda>l. \<not> signed_match ''-'' l \<and> \<not> signed_match ''+'' l"]
    by simp_all
  then have l1: "patch_loop ?code ?pl (enumerate 0 pre) st = Inr st"
    and l3: "patch_loop ?code ?pl (enumerate (Suc (length pre)) post) st = Inr st" for st
    by (simp_all add: patch_loop_context_only)
  have "run_patch ?pl ?code
        = Inr \<lparr>patched = [Str ''a;'', Str [], Str ''c;''], unpatched = [], to_patch = 1,
               replace_idx = 1, prev_patch_idx = int (length pre)\<rparr>"
    unfolding run_patch_def abc_format_code Let_def en patch_loop_append l1
    by (simp add: abc_step l3 del: append.simps)
  with assms(1,3) show ?thesis
    by (simp add: patching_def abc_reconstruct)
qed

text \<open>
  A patch of one hunk with the context lines \<open>a;\<close> and \<open>c;\<close> around the removed line is
  such a patch.
\<close>

theorem deletion_of_unique_line_witness:
  "format_patch_lines (''@@ -1,3 +1,2 @@'' @ [NL] @ '' a;'' @ [NL] @ ''- b;'' @ [NL] @ '' c;'')
     = [''@@ -1,3 +1,2 @@'', [], '' a;''] @ [''- b;''] @ ['' c;'']
   \<and> list_all (\<lambda>l. \<not> signed_match ''-'' l \<and> \<not> signed_match ''+'' l)
        ([''@@ -1,3 +1,2 @@'', [], '' a;''] @ ['' c;''])
   \<and> is_a_patch (format_patch_lines
        (''@@ -1,3 +1,2 @@'' @ [NL] @ '' a;'' @ [NL] @ ''- b;'' @ [NL] @ '' c;''))
   \<and> patching (''@@ -1,3 +1,2 @@'' @ [NL] @ '' a;'' @ [NL] @ ''- b;'' @ [NL] @ '' c;'')
        [''a;'', ''b;'', ''c;''] = Inr (''a;'' @ [NL] @ ''c;'')"
proof -
  have f: "format_patch_lines (''@@ -1,3 +1,2 @@'' @ [NL] @ '' a;'' @ [NL] @ ''- b;'' @ [NL] @ '' c;'')
     = [''@@ -1,3 +1,2 @@'', [], '' a;''] @ [''- b;''] @ ['' c;'']"
    by code_simp
  have u: "list_all (\<lambda>l. \<not> signed_match ''-'' l \<and> \<not> signed_match ''+'' l)
        ([''@@ -1,3 +1,2 @@'', [], '' a;''] @ ['' c;''])"
    by code_simp
  have p: "is_a_patch (format_patch_lines
        (''@@ -1,3 +1,2 @@'' @ [NL] @ '' a;'' @ [NL] @ ''- b;'' @ [NL] @ '' c;''))"
    by code_simp
  from deletion_of_unique_line [OF f u p] f u p show ?thesis by (intro conjI)
qed

text \<open>
  C6 as stated fails: the source lines \<open>a\<close>, \<open>b\<close>, \<open>c\<close> end in a letter, so the
  pre-pass joins each with the next before any matching; the removed line \<open>b\<close> then
  has no candidate, nothing is applied and \<open>patching\<close> raises \<open>NotPatchError\<close>.
\<close>

theorem deletion_example_not_applied:
  "format_code [''a'', ''b'', ''c''] = [''a b'', ''b c'', []]
   \<and> format_patch_lines (''@@ -1,3 +1,2 @@'' @ [NL] @ '' a'' @ [NL] @ ''- b'' @ [NL] @ '' c'')
       = [''@@ -1,3 +1,2 @@'', [], '' a'', ''- b'', '' c'']
   \<and> is_a_patch (format_patch_lines
         (''@@ -1,3 +1,2 @@'' @ [NL] @ '' a'' @ [NL] @ ''- b'' @ [NL] @ '' c''))
   \<and> patching (''@@ -1,3 +1,2 @@'' @ [NL] @ '' a'' @ [NL] @ ''- b'' @ [NL] @ '' c'')
        [''a'', ''b'', ''c''] = Inl NotPatchError
   \<and> patching (''@@ -1,3 +1,2 @@'' @ [NL] @ '' a'' @ [NL] @ ''- b'' @ [NL] @ '' c'')
        [''a'', ''b'', ''c''] \<noteq> Inr (''a'' @ [NL] @ ''c'')"
  by code_simp

section \<open>The caller's list\<close>

lemma heap_update_same: "h ! a = v \<Longrightarrow> h[a := v] = h"
  by (metis list_update_id)

lemma format_code_loop_h_eq:
  "out < length h \<Longrightarrow> h ! out = Lines ls \<Longrightarrow>
     format_code_loop_h out ps h = h[out := Lines (format_code_loop ps ls)]"
proof (induction ps arbitrary: h ls)
  case Nil
  then show ?case by (simp add: heap_update_same)
next
  case (Cons p ps)
  obtain i line where p: "p = (i, line)" by (cases p)
  let ?h = "h[out := Lines (format_code_step i line ls)]"
  from Cons.prems have "out < length ?h" and "?h ! out = Lines (format_code_step i line ls)"
    by simp_all
  from Cons.IH [OF this] Cons.prems p show ?case
    by (simp add: heap_lines_def)
qed

lemma format_code_h_eq:
  assumes "raw < length h" and "h ! raw = Lines ls"
  shows "format_code_h raw h = (length h, h @ [Lines (format_code ls)])"
proof -
  have "format_code_loop_h (length h) (enumerate 0 ls) (h @ [Lines ls])
        = (h @ [Lines ls])[length h := Lines (format_code_loop (enumerate 0 ls) ls)]"
    by (rule format_code_loop_h_eq) simp_all
  with assms show ?thesis
    by (simp add: format_code_h_def alloc_def heap_lines_def format_code_def)
qed

lemma patch_loop_h_eq:
  assumes "p < length h" and "c < length h" and "c \<noteq> p"
    and "h ! c = Lines cl" and "h ! p = Slots (patched st)"
  shows "fst (patch_loop_h c p pl es st h) = patch_loop cl pl es st
         \<and> (\<exists>ps. snd (patch_loop_h c p pl es st h) = h[p := Slots ps])
         \<and> (\<forall>st'. patch_loop cl pl es st = Inr st'
                \<longrightarrow> snd (patch_loop_h c p pl es st h) = h[p := Slots (patched st')])"
  using assms
proof (induction es arbitrary: st h)
  case Nil
  then have "h[p := Slots (patched st)] = h" by (simp add: heap_update_same)
  then show ?case by (auto intro: exI [of _ "patched st"])
next
  case (Cons e es)
  obtain pidx pline where e: "e = (pidx, pline)" by (cases e)
  have cur: "st\<lparr>patched := heap_slots h p\<rparr> = st"
    using Cons.prems by (simp add: heap_slots_def)
  have code: "heap_lines h c = cl"
    using Cons.prems by (simp add: heap_lines_def)
  show ?case
  proof (cases "patch_step cl pl pidx pline st")
    case (Inl err)
    from Cons.prems have "h[p := Slots (patched st)] = h" by (simp add: heap_update_same)
    with Inl e cur code show ?thesis
      by (auto intro: exI [of _ "patched st"])
  next
    case (Inr st1)
    let ?h = "h[p := Slots (patched st1)]"
    from Cons.prems have "p < length ?h" "c < length ?h" "c \<noteq> p"
      "?h ! c = Lines cl" "?h ! p = Slots (patched st1)"
      by simp_all
    from Cons.IH [OF this] Inr e cur code show ?thesis
      by (simp add: list_update_overwrite)
  qed
qed

text \<open>
  C8: input immutability. Let \<open>raw\<close> be the caller's reference to the source-line list,
  a live list object of the heap. A call of \<open>patching\<close> computes what the function on
  values computes, whatever the outcome is (a text, Malformed Patch, No-Op Patch or another
  failure), and after it the object at \<open>raw\<close> holds its original lines in their order;
  indeed every object that existed before the call is unchanged: all writes go to the
  two objects the call allocates.
\<close>

theorem patching_leaves_source_untouched:
  assumes "raw < length h" and "h ! raw = Lines ls"
  shows "fst (patching_h patch raw h) = patching patch ls
         \<and> snd (patching_h patch raw h) ! raw = Lines ls
         \<and> take (length h) (snd (patching_h patch raw h)) = h"
proof (cases "is_a_patch (format_patch_lines patch)")
  case False
  with assms show ?thesis
    by (simp add: patching_h_def patching_def)
next
  case True
  let ?pl = "format_patch_lines patch"
  let ?fc = "format_code ls"
  let ?h2 = "h @ [Lines ?fc, Slots (map Str ?fc)]"
  let ?c = "length h"
  let ?p = "Suc (length h)"
  have pre: "?p < length ?h2" "?c < length ?h2" "?c \<noteq> ?p" "?h2 ! ?c = Lines ?fc"
    "?h2 ! ?p = Slots (patched (init_state ?fc))"
    by (simp_all add: init_state_def nth_append)
  note loop = patch_loop_h_eq [OF pre, of ?pl "enumerate 0 ?pl"]
  obtain r h3 where rh: "patch_loop_h ?c ?p ?pl (enumerate 0 ?pl) (init_state ?fc) ?h2 = (r, h3)"
    by (cases "patch_loop_h ?c ?p ?pl (enumerate 0 ?pl) (init_state ?fc) ?h2")
  from loop rh have r: "r = run_patch ?pl ls"
    by (simp add: run_patch_def Let_def)
  from loop rh obtain ps where h3: "h3 = ?h2[?p := Slots ps]"
    by auto
  have fin: "r = Inr st \<Longrightarrow> heap_slots h3 ?p = patched st" for st
    using loop rh r by (simp add: run_patch_def Let_def heap_slots_def)
  have unf: "patching_h patch raw h =
      (case r of
         Inl e \<Rightarrow> (Inl e, h3)
       | Inr st \<Rightarrow>
           if length (unpatched st) = to_patch st then (Inl NotPatchError, h3)
           else (reconstruct (heap_slots h3 ?p), h3))"
    using True assms rh
    by (simp add: patching_h_def format_code_h_eq [OF assms] alloc_def heap_lines_def
        split: sum.splits)
  have res: "fst (patching_h patch raw h) = patching patch ls"
    using True r fin unf by (auto simp: patching_def split: sum.splits)
  have hp: "snd (patching_h patch raw h) = h3"
    using unf by (auto split: sum.splits)
  have tk: "take (length h) h3 = h"
    by (simp add: h3)
  have "h3 ! raw = h ! raw"
    using assms(1) by (simp add: h3 nth_append)
  with res hp tk assms(2) show ?thesis by simp
qed

text \<open>
  Three calls on a heap that holds the caller's list \<open>a;\<close>, \<open>b;\<close>, \<open>c;\<close>: one
  returns a text, one raises Malformed Patch, one raises No-Op Patch; the list is the
  same after each.
\<close>

theorem patching_leaves_source_untouched_witness:
  "fst (patching_h (''@@ -1,3 +1,3 @@'' @ [NL] @ ''- b;'' @ [NL] @ ''+ B;'') 0
          [Lines [''a;'', ''b;'', ''c;'']])
     = Inr (''a;'' @ [NL] @ '' B;'' @ [NL] @ ''c;'')
   \<and> snd (patching_h (''@@ -1,3 +1,3 @@'' @ [NL] @ ''- b;'' @ [NL] @ ''+ B;'') 0
          [Lines [''a;'', ''b;'', ''c;'']]) ! 0 = Lines [''a;'', ''b;'', ''c;'']
   \<and> fst (patching_h ''no patch'' 0 [Lines [''a;'', ''b;'', ''c;'']]) = Inl NoCodeError
   \<and> snd (patching_h ''no patch'' 0 [Lines [''a;'', ''b;'', ''c;'']]) ! 0
       = Lines [''a;'', ''b;'', ''c;'']
   \<and> fst (patching_h (''@@ -1,3 +1,3 @@'' @ [NL] @ ''- x;'') 0
          [Lines [''a;'', ''b;'', ''c;'']]) = Inl NotPatchError
   \<and> snd (patching_h (''@@ -1,3 +1,3 @@'' @ [NL] @ ''- x;'') 0
          [Lines [''a;'', ''b;'', ''c;'']]) ! 0 = Lines [''a;'', ''b;'', ''c;'']"
proof -
  have a: "0 < length [Lines [''a;'', ''b;'', ''c;'']]" by simp
  have b: "[Lines [''a;'', ''b;'', ''c;'']] ! 0 = Lines [''a;'', ''b;'', ''c;'']" by simp
  have r1: "patching (''@@ -1,3 +1,3 @@'' @ [NL] @ ''- b;'' @ [NL] @ ''+ B;'') [''a;'', ''b;'', ''c;'']
              = Inr (''a;'' @ [NL] @ '' B;'' @ [NL] @ ''c;'')"
    by code_simp
  have r2: "patching ''no patch'' [''a;'', ''b;'', ''c;''] = Inl NoCodeError"
    by code_simp
  have r3: "patching (''@@ -1,3 +1,3 @@'' @ [NL] @ ''- x;'') [''a;'', ''b;'', ''c;'']
              = Inl NotPatchError"
    by code_simp
  from patching_leaves_source_untouched [OF a b, of "''@@ -1,3 +1,3 @@'' @ [NL] @ ''- b;'' @ [NL] @ ''+ B;''"]
    patching_leaves_source_untouched [OF a b, of "''no patch''"]
    patching_leaves_source_untouched [OF a b, of "''@@ -1,3 +1,3 @@'' @ [NL] @ ''- x;''"]
    r1 r2 r3
  show ?thesis by simp
qed

end
